theory Spec2Isabelle
  imports Complex_Main
begin

section \<open>Python values, dictionaries and exceptions\<close>

text \<open>
  The orchestration code of \<^verbatim>\<open>llm_handler.py\<close> and \<^verbatim>\<open>app.py\<close> works on Python
  dictionaries with string keys. A dictionary is an association list in insertion order
  with Python's update rule: assigning to an existing key replaces the value in place,
  assigning to a new key appends it. A Python string is represented by its UTF-8
  encoding, a list of bytes.
\<close>

datatype pyval = Str string | Bool bool | NoneV

type_synonym ('k, 'v) dict = "('k \<times> 'v) list"

datatype exn = KeyError string | ValueError string | AttributeError string

text \<open>\<^verbatim>\<open>str(e)\<close>: a \<^verbatim>\<open>KeyError\<close> prints the repr of the missing key.\<close>

fun exn_str :: "exn \<Rightarrow> string" where
  "exn_str (KeyError k) = [CHR 0x27] @ k @ [CHR 0x27]"
| "exn_str (ValueError m) = m"
| "exn_str (AttributeError m) = m"

text \<open>\<^verbatim>\<open>k in d\<close>, \<^verbatim>\<open>d.get(k)\<close>, \<^verbatim>\<open>d[k]\<close>, \<^verbatim>\<open>d[k] = v\<close> and \<^verbatim>\<open>{**d1, **d2}\<close>.\<close>

definition dict_has :: "('k, 'v) dict \<Rightarrow> 'k \<Rightarrow> bool" where
  "dict_has d k = (map_of d k \<noteq> None)"

definition dict_get :: "('k, 'v) dict \<Rightarrow> 'k \<Rightarrow> 'v option" where
  "dict_get d k = map_of d k"

definition dict_index :: "(string, 'v) dict \<Rightarrow> string \<Rightarrow> exn + 'v" where
  "dict_index d k = (case map_of d k of None \<Rightarrow> Inl (KeyError k) | Some v \<Rightarrow> Inr v)"

primrec dict_set :: "'k \<Rightarrow> 'v \<Rightarrow> ('k, 'v) dict \<Rightarrow> ('k, 'v) dict" where
  "dict_set k v [] = [(k, v)]"
| "dict_set k v (p # ps) = (if fst p = k then (k, v) # ps else p # dict_set k v ps)"

definition dict_merge :: "('k, 'v) dict \<Rightarrow> ('k, 'v) dict \<Rightarrow> ('k, 'v) dict" where
  "dict_merge d1 d2 = fold (\<lambda>(k, v). dict_set k v) d2 d1"

text \<open>Formatting a value inside an f-string, and Python truthiness.\<close>

fun py_str :: "pyval \<Rightarrow> string" where
  "py_str (Str s) = s"
| "py_str (Bool b) = (if b then ''True'' else ''False'')"
| "py_str NoneV = ''None''"

fun truthy :: "pyval \<Rightarrow> bool" where
  "truthy (Str s) = (s \<noteq> [])"
| "truthy (Bool b) = b"
| "truthy NoneV = False"

subsection \<open>String operations\<close>

definition newline :: string where
  "newline = [CHR 0x0A]"

text \<open>The Python literal \<^verbatim>\<open>"\\n"\<close>: a backslash followed by the letter n.\<close>

definition backslash_n :: string where
  "backslash_n = [CHR 0x5C, CHR ''n'']"

definition dquote :: string where
  "dquote = [CHR 0x22]"

text \<open>\<^verbatim>\<open>sep.join(xs)\<close>.\<close>

fun join :: "string \<Rightarrow> string list \<Rightarrow> string" where
  "join sep [] = []"
| "join sep [x] = x"
| "join sep (x # y # ys) = x @ sep @ join sep (y # ys)"

text \<open>
  The characters of a string: the bytes are grouped by the width that the leading byte of
  each UTF-8 sequence announces.
\<close>

definition utf8_width :: "char \<Rightarrow> nat" where
  "utf8_width c =
     (let n = (of_char c :: nat) in
      if n < 0xC0 then 1 else if n < 0xE0 then 2 else if n < 0xF0 then 3 else 4)"

fun utf8_chars :: "string \<Rightarrow> string list" where
  "utf8_chars [] = []"
| "utf8_chars (c # cs) =
     (c # take (utf8_width c - 1) cs) # utf8_chars (drop (utf8_width c - 1) cs)"

text \<open>
  \<^verbatim>\<open>str.strip()\<close> removes the leading and trailing characters for which
  \<^verbatim>\<open>str.isspace\<close> holds: U+0009 to U+000D, U+001C to U+001F, U+0020, U+0085, U+00A0,
  U+1680, U+2000 to U+200A, U+2028, U+2029, U+202F, U+205F and U+3000, listed here in
  UTF-8.
\<close>

definition unicode_spaces :: "string list" where
  "unicode_spaces =
     [[CHR 0x09], [CHR 0x0A], [CHR 0x0B], [CHR 0x0C], [CHR 0x0D],
      [CHR 0x1C], [CHR 0x1D], [CHR 0x1E], [CHR 0x1F], [CHR 0x20],
      [CHR 0xC2, CHR 0x85], [CHR 0xC2, CHR 0xA0], [CHR 0xE1, CHR 0x9A, CHR 0x80],
      [CHR 0xE2, CHR 0x80, CHR 0x80], [CHR 0xE2, CHR 0x80, CHR 0x81],
      [CHR 0xE2, CHR 0x80, CHR 0x82], [CHR 0xE2, CHR 0x80, CHR 0x83],
      [CHR 0xE2, CHR 0x80, CHR 0x84], [CHR 0xE2, CHR 0x80, CHR 0x85],
      [CHR 0xE2, CHR 0x80, CHR 0x86], [CHR 0xE2, CHR 0x80, CHR 0x87],
      [CHR 0xE2, CHR 0x80, CHR 0x88], [CHR 0xE2, CHR 0x80, CHR 0x89],
      [CHR 0xE2, CHR 0x80, CHR 0x8A], [CHR 0xE2, CHR 0x80, CHR 0xA8],
      [CHR 0xE2, CHR 0x80, CHR 0xA9], [CHR 0xE2, CHR 0x80, CHR 0xAF],
      [CHR 0xE2, CHR 0x81, CHR 0x9F], [CHR 0xE3, CHR 0x80, CHR 0x80]]"

definition is_space :: "string \<Rightarrow> bool" where
  "is_space ch = (ch \<in> set unicode_spaces)"

definition strip :: "string \<Rightarrow> string" where
  "strip s = concat (rev (dropWhile is_space (rev (dropWhile is_space (utf8_chars s)))))"

text \<open>
  \<^verbatim>\<open>str.upper()\<close> replaces every character by its uppercase form. For an ASCII
  character that is the letter A to Z for a to z, and the character itself otherwise. For
  a character outside ASCII it is an entry of the case table of the Unicode database that
  the Python runtime carries; the table is not part of the repository and is taken as a
  parameter, from a character to its uppercase form, both in UTF-8.
\<close>

definition upper_char :: "char \<Rightarrow> char" where
  "upper_char c =
     (case map_of (zip ''abcdefghijklmnopqrstuvwxyz'' ''ABCDEFGHIJKLMNOPQRSTUVWXYZ'') c of
        None \<Rightarrow> c
      | Some u \<Rightarrow> u)"

definition upper_of :: "(string \<Rightarrow> string) \<Rightarrow> string \<Rightarrow> string" where
  "upper_of table ch =
     (case ch of
        [c] \<Rightarrow> if (of_char c :: nat) < 0x80 then [upper_char c] else table ch
      | _ \<Rightarrow> table ch)"

definition upper :: "(string \<Rightarrow> string) \<Rightarrow> string \<Rightarrow> string" where
  "upper table s = concat (map (upper_of table) (utf8_chars s))"

text \<open>The message of the \<^verbatim>\<open>AttributeError\<close> raised by a method call on a wrong type.\<close>

definition no_attribute :: "string \<Rightarrow> string \<Rightarrow> string" where
  "no_attribute type_name attr =
     [CHR 0x27] @ type_name @ [CHR 0x27] @ '' object has no attribute ''
     @ [CHR 0x27] @ attr @ [CHR 0x27]"

section \<open>The backends and the record of calls\<close>

text \<open>
  The two SDK calls are the only contact with the services. The \<open>n\<close>-th request issued
  has an arbitrary outcome: the response carries a text, or it carries no text (the
  content of an OpenAI message is an optional string, and \<^verbatim>\<open>_call_openai\<close> passes it
  on as it is), or the call raises an exception \<open>e\<close>, given by \<^verbatim>\<open>str(e)\<close>. What lies
  outside the repository is these outcomes and the case table of the runtime. The world
  is the list of requests issued so far, so that a theorem can say which calls were made.
\<close>

type_synonym message = "(string, string) dict"

datatype request =
    OpenAI_request string "message list" real
  | Gemini_request string string real

datatype outcome = Returns string | Returns_None | Raises string

record outside =
  respond :: "nat \<Rightarrow> request \<Rightarrow> outcome"
  uppercase :: "string \<Rightarrow> string"

type_synonym world = "request list"

type_synonym call_result = "(string, pyval) dict"

type_synonym 'a task = "world \<Rightarrow> 'a \<times> world"

definition success_result :: "string \<Rightarrow> call_result" where
  "success_result c = [(''success'', Bool True), (''content'', Str c)]"

text \<open>\<^verbatim>\<open>{"success": True, "content": None}\<close>.\<close>

definition success_none :: call_result where
  "success_none = [(''success'', Bool True), (''content'', NoneV)]"

definition failure_result :: "string \<Rightarrow> call_result" where
  "failure_result e = [(''success'', Bool False), (''error'', Str e)]"

text \<open>\<^verbatim>\<open>_call_openai\<close>: the whole body is inside \<^verbatim>\<open>try\<close>.\<close>

definition call_openai ::
  "outside \<Rightarrow> string \<Rightarrow> message list \<Rightarrow> real \<Rightarrow> call_result task" where
  "call_openai be model_id messages temp w =
     (let req = OpenAI_request model_id messages temp in
      (case respond be (length w) req of
         Returns c \<Rightarrow> success_result c
       | Returns_None \<Rightarrow> success_none
       | Raises e \<Rightarrow> failure_result (''OpenAI Error: '' @ e),
       w @ [req]))"

text \<open>
  \<^verbatim>\<open>[m['content'] for m in messages if m['role'] == 'user']\<close>: a message without
  a role or, for a user message, without a content raises \<^verbatim>\<open>KeyError\<close>.
\<close>

fun gemini_messages :: "message list \<Rightarrow> exn + string list" where
  "gemini_messages [] = Inr []"
| "gemini_messages (m # ms) =
     (case dict_index m ''role'' of
        Inl e \<Rightarrow> Inl e
      | Inr r \<Rightarrow>
          if r = ''user'' then
            (case dict_index m ''content'' of
               Inl e \<Rightarrow> Inl e
             | Inr c \<Rightarrow>
                 (case gemini_messages ms of
                    Inl e \<Rightarrow> Inl e
                  | Inr cs \<Rightarrow> Inr (c # cs)))
          else gemini_messages ms)"

text \<open>
  \<^verbatim>\<open>_call_gemini_sync\<close>: the prompt is built inside \<^verbatim>\<open>try\<close>, so a \<^verbatim>\<open>KeyError\<close> there
  is caught like a failure of \<^verbatim>\<open>generate_content\<close>, and then no request is issued.
\<close>

definition call_gemini_sync ::
  "outside \<Rightarrow> string \<Rightarrow> message list \<Rightarrow> real \<Rightarrow> call_result task" where
  "call_gemini_sync be model_id messages temp w =
     (case gemini_messages messages of
        Inl e \<Rightarrow> (failure_result (''Gemini Error: '' @ exn_str e), w)
      | Inr gms \<Rightarrow>
          (let prompt = join backslash_n gms;
               req = Gemini_request model_id prompt temp in
           (case respond be (length w) req of
              Returns t \<Rightarrow> success_result t
            | Returns_None \<Rightarrow> success_none
            | Raises e \<Rightarrow> failure_result (''Gemini Error: '' @ e),
            w @ [req])))"

definition make_api_call ::
  "outside \<Rightarrow> string \<Rightarrow> string \<Rightarrow> message list \<Rightarrow> real \<Rightarrow> call_result task" where
  "make_api_call be api model_id messages temp w =
     (if api = ''openai'' then call_openai be model_id messages temp w
      else if api = ''gemini'' then call_gemini_sync be model_id messages temp w
      else (failure_result (''Unknown API: '' @ api), w))"

text \<open>The default of the parameter \<^verbatim>\<open>temp\<close> of \<^verbatim>\<open>_make_api_call\<close>.\<close>

definition default_temp :: real where
  "default_temp = 7 / 10"

definition user_message :: "string \<Rightarrow> message" where
  "user_message text = [(''role'', ''user''), (''content'', text)]"

section \<open>The handler\<close>

type_synonym model_config = "(string, string) dict"

type_synonym entry = "(string, pyval) dict"

type_synonym answers = "(string, entry) dict"

record handler =
  openai_api_key :: string
  gemini_api_key :: string
  models :: "model_config list"
  judge_model_id :: string
  judge_api :: string

definition initial_models :: "model_config list" where
  "initial_models =
     [[(''name'', ''GPT-4o-mini''), (''model_id'', ''gpt-4o-mini''), (''api'', ''openai'')],
      [(''name'', ''Gemini-1.5-Flash''), (''model_id'', ''gemini-1.5-flash-latest''),
       (''api'', ''gemini'')]]"

text \<open>
  \<^verbatim>\<open>LLMHandler.__init__\<close>. The environment is \<^verbatim>\<open>os.getenv\<close>; \<^verbatim>\<open>not key\<close> holds for
  a variable that is unset and for one that is set to the empty string.
\<close>

definition LLMHandler_init :: "(string \<Rightarrow> string option) \<Rightarrow> exn + handler" where
  "LLMHandler_init getenv =
     (case getenv ''OPENAI_API_KEY'' of
        None \<Rightarrow> Inl (ValueError ''OPENAI_API_KEY not found in .env file.'')
      | Some ok \<Rightarrow>
          if ok = [] then Inl (ValueError ''OPENAI_API_KEY not found in .env file.'')
          else
            (case getenv ''GEMINI_API_KEY'' of
               None \<Rightarrow> Inl (ValueError ''GEMINI_API_KEY not found in .env file.'')
             | Some gk \<Rightarrow>
                 if gk = [] then Inl (ValueError ''GEMINI_API_KEY not found in .env file.'')
                 else Inr \<lparr>openai_api_key = ok, gemini_api_key = gk,
                           models = initial_models,
                           judge_model_id = ''gpt-4o-mini'', judge_api = ''openai''\<rparr>))"

text \<open>\<^verbatim>\<open>get_models_list\<close>, \<^verbatim>\<open>add_model\<close> and \<^verbatim>\<open>remove_model\<close>.\<close>

definition get_models_list :: "handler \<Rightarrow> model_config list" where
  "get_models_list h = models h"

definition add_model :: "string \<Rightarrow> string \<Rightarrow> string option \<Rightarrow> handler \<Rightarrow> handler" where
  "add_model name model_id display_name h =
     (let dn = (case display_name of None \<Rightarrow> name | Some d \<Rightarrow> d) in
      h\<lparr>models := models h @
           [[(''name'', name), (''model_id'', model_id), (''display_name'', dn)]]\<rparr>)"

fun remove_models :: "string \<Rightarrow> model_config list \<Rightarrow> exn + model_config list" where
  "remove_models name [] = Inr []"
| "remove_models name (model # rest) =
     (case dict_index model ''name'' of
        Inl e \<Rightarrow> Inl e
      | Inr n \<Rightarrow>
          (case remove_models name rest of
             Inl e \<Rightarrow> Inl e
           | Inr kept \<Rightarrow> Inr (if n \<noteq> name then model # kept else kept)))"

definition remove_model :: "string \<Rightarrow> handler \<Rightarrow> exn + handler" where
  "remove_model name h =
     (case remove_models name (models h) of
        Inl e \<Rightarrow> Inl e
      | Inr kept \<Rightarrow> Inr (h\<lparr>models := kept\<rparr>))"

section \<open>Joining a batch of calls\<close>

text \<open>
  \<^verbatim>\<open>asyncio.gather\<close> starts the awaitables in the order given and returns their results
  in that same order, whatever the order in which they complete. The completion order is
  made explicit: \<open>delay i\<close> is the completion time of the \<open>i\<close>-th awaitable, each
  completion stores its result in the slot of its awaitable, and the join returns the
  slots once all are filled.
\<close>

fun run_all :: "'a task list \<Rightarrow> world \<Rightarrow> 'a list \<times> world" where
  "run_all [] w = ([], w)"
| "run_all (t # ts) w =
     (let (r, w') = t w; (rs, w'') = run_all ts w' in (r # rs, w''))"

definition completion_order :: "(nat \<Rightarrow> nat) \<Rightarrow> nat \<Rightarrow> nat list" where
  "completion_order delay n = sort_key delay [0..<n]"

definition deliver :: "(nat \<Rightarrow> nat) \<Rightarrow> 'a list \<Rightarrow> 'a list" where
  "deliver delay rs =
     map the (fold (\<lambda>i slots. slots[i := Some (rs ! i)])
                   (completion_order delay (length rs))
                   (replicate (length rs) None))"

definition gather :: "(nat \<Rightarrow> nat) \<Rightarrow> 'a task list \<Rightarrow> world \<Rightarrow> 'a list \<times> world" where
  "gather delay tasks w = (let (rs, w') = run_all tasks w in (deliver delay rs, w'))"

section \<open>Initial answers\<close>

text \<open>
  \<^verbatim>\<open>[self._make_api_call(m["api"], m["model_id"], messages) for m in self.models]\<close>:
  building the list of coroutines raises \<^verbatim>\<open>KeyError\<close> at the first model without
  \<^verbatim>\<open>api\<close> or \<^verbatim>\<open>model_id\<close>, before any call is started.
\<close>

fun initial_tasks ::
  "outside \<Rightarrow> message list \<Rightarrow> model_config list \<Rightarrow> exn + call_result task list" where
  "initial_tasks be messages [] = Inr []"
| "initial_tasks be messages (m # ms) =
     (case dict_index m ''api'' of
        Inl e \<Rightarrow> Inl e
      | Inr api \<Rightarrow>
          (case dict_index m ''model_id'' of
             Inl e \<Rightarrow> Inl e
           | Inr model_id \<Rightarrow>
               (case initial_tasks be messages ms of
                  Inl e \<Rightarrow> Inl e
                | Inr ts \<Rightarrow> Inr (make_api_call be api model_id messages default_temp # ts))))"

text \<open>A model configuration seen as part of an entry: \<^verbatim>\<open>{**result, **model_info}\<close>.\<close>

definition as_entry :: "model_config \<Rightarrow> entry" where
  "as_entry m = map (\<lambda>(k, v). (k, Str v)) m"

text \<open>
  The loop \<^verbatim>\<open>for i, result in enumerate(results)\<close> with \<^verbatim>\<open>model_info = self.models[i]\<close>;
  there are as many results as models.
\<close>

fun collect_answers :: "(call_result \<times> model_config) list \<Rightarrow> answers \<Rightarrow> exn + answers" where
  "collect_answers [] answers = Inr answers"
| "collect_answers ((result, model_info) # rest) answers =
     (case dict_index model_info ''name'' of
        Inl e \<Rightarrow> Inl e
      | Inr name \<Rightarrow>
          collect_answers rest (dict_set name (dict_merge result (as_entry model_info)) answers))"

definition get_initial_answers ::
  "outside \<Rightarrow> (nat \<Rightarrow> nat) \<Rightarrow> handler \<Rightarrow> string \<Rightarrow> world \<Rightarrow> (exn + answers) \<times> world" where
  "get_initial_answers be delay h question w =
     (let messages = [user_message question] in
      case initial_tasks be messages (models h) of
        Inl e \<Rightarrow> (Inl e, w)
      | Inr tasks \<Rightarrow>
          (let (results, w') = gather delay tasks w in
           (collect_answers (zip results (models h)) [], w')))"

section \<open>Judging\<close>

text \<open>
  The list comprehension of \<^verbatim>\<open>are_answers_similar\<close> over \<^verbatim>\<open>answers.items()\<close>, keeping
  the entries with a \<^verbatim>\<open>content\<close> key. The separator written in the f-string is
  \<^verbatim>\<open>\\n\<close>.
\<close>

fun answer_list :: "answers \<Rightarrow> exn + string list" where
  "answer_list [] = Inr []"
| "answer_list ((model, data) # rest) =
     (if dict_has data ''content'' then
        (case dict_index data ''name'' of
           Inl e \<Rightarrow> Inl e
         | Inr name \<Rightarrow>
             (case dict_index data ''content'' of
                Inl e \<Rightarrow> Inl e
              | Inr content \<Rightarrow>
                  (case answer_list rest of
                     Inl e \<Rightarrow> Inl e
                   | Inr xs \<Rightarrow>
                       Inr ((''Answer from '' @ py_str name @ '':'' @ backslash_n
                             @ py_str content) # xs))))
      else answer_list rest)"

definition comparison_prompt :: "string \<Rightarrow> string \<Rightarrow> string \<Rightarrow> string" where
  "comparison_prompt question a0 a1 =
     ''The user asked: '' @ dquote @ question @ dquote @ newline
     @ ''I received two answers:'' @ newline
     @ ''---'' @ newline
     @ a0 @ newline
     @ ''---'' @ newline
     @ a1 @ newline
     @ ''---'' @ newline
     @ ''Do these answers provide the same core information? Respond with only YES or NO.''"

text \<open>\<^verbatim>\<open>result.get("content", "").strip().upper() == "YES"\<close>.\<close>

definition judge_verdict :: "(string \<Rightarrow> string) \<Rightarrow> call_result \<Rightarrow> exn + bool" where
  "judge_verdict table result =
     (case dict_get result ''content'' of
        None \<Rightarrow> Inr (upper table (strip []) = ''YES'')
      | Some (Str s) \<Rightarrow> Inr (upper table (strip s) = ''YES'')
      | Some (Bool b) \<Rightarrow> Inl (AttributeError (no_attribute ''bool'' ''strip''))
      | Some NoneV \<Rightarrow> Inl (AttributeError (no_attribute ''NoneType'' ''strip'')))"

definition are_answers_similar ::
  "outside \<Rightarrow> handler \<Rightarrow> string \<Rightarrow> answers \<Rightarrow> world \<Rightarrow> (exn + bool) \<times> world" where
  "are_answers_similar be h question answers w =
     (case answer_list answers of
        Inl e \<Rightarrow> (Inl e, w)
      | Inr al \<Rightarrow>
          if length al < 2 then (Inr True, w)
          else
            (let messages = [user_message (comparison_prompt question (al ! 0) (al ! 1))];
                 (result, w') = make_api_call be (judge_api h) (judge_model_id h) messages 0 w
             in (judge_verdict (uppercase be) result, w')))"

section \<open>Revised answers\<close>

text \<open>\<^verbatim>\<open>next((m for m in self.models if m["name"] != model_name), None)\<close>.\<close>

fun next_other :: "model_config list \<Rightarrow> string \<Rightarrow> exn + model_config option" where
  "next_other [] model_name = Inr None"
| "next_other (m # ms) model_name =
     (case dict_index m ''name'' of
        Inl e \<Rightarrow> Inl e
      | Inr n \<Rightarrow> if n \<noteq> model_name then Inr (Some m) else next_other ms model_name)"

definition feedback_prompt :: "string \<Rightarrow> string \<Rightarrow> string \<Rightarrow> string" where
  "feedback_prompt question own other =
     ''Original question: '' @ dquote @ question @ dquote @ newline
     @ ''Your answer: '' @ dquote @ own @ dquote @ newline
     @ ''The other model'' @ [CHR 0x27] @ ''s answer: '' @ dquote @ other @ dquote @ newline
     @ ''Review both. If yours is best, defend it. Otherwise, provide a revised answer. ''
     @ ''Respond with only the final answer.''"

text \<open>\<^verbatim>\<open>original_answers[name]['content']\<close>.\<close>

definition content_of :: "answers \<Rightarrow> string \<Rightarrow> exn + pyval" where
  "content_of original_answers name =
     (case dict_index original_answers name of
        Inl e \<Rightarrow> Inl e
      | Inr data \<Rightarrow> dict_index data ''content'')"

text \<open>
  The first loop of \<^verbatim>\<open>get_revised_answers\<close>, over the models still to visit: a model
  is passed over by \<^verbatim>\<open>continue\<close>, or a pair of its name and its call is appended.
\<close>

fun revision_tasks ::
  "outside \<Rightarrow> model_config list \<Rightarrow> string \<Rightarrow> answers \<Rightarrow> model_config list
     \<Rightarrow> exn + (string \<times> call_result task) list" where
  "revision_tasks be all_models question original_answers [] = Inr []"
| "revision_tasks be all_models question original_answers (model_to_revise # rest) =
     (case dict_index model_to_revise ''name'' of
        Inl e \<Rightarrow> Inl e
      | Inr model_name \<Rightarrow>
     (case next_other all_models model_name of
        Inl e \<Rightarrow> Inl e
      | Inr None \<Rightarrow> revision_tasks be all_models question original_answers rest
      | Inr (Some other_model) \<Rightarrow>
          if \<not> dict_has original_answers model_name
          then revision_tasks be all_models question original_answers rest
          else
     (case dict_index other_model ''name'' of
        Inl e \<Rightarrow> Inl e
      | Inr other_name \<Rightarrow>
          if \<not> dict_has original_answers other_name
          then revision_tasks be all_models question original_answers rest
          else
     (case content_of original_answers model_name of
        Inl e \<Rightarrow> Inl e
      | Inr own \<Rightarrow>
     (case content_of original_answers other_name of
        Inl e \<Rightarrow> Inl e
      | Inr other \<Rightarrow>
     (case dict_index model_to_revise ''api'' of
        Inl e \<Rightarrow> Inl e
      | Inr api \<Rightarrow>
     (case dict_index model_to_revise ''model_id'' of
        Inl e \<Rightarrow> Inl e
      | Inr model_id \<Rightarrow>
     (case revision_tasks be all_models question original_answers rest of
        Inl e \<Rightarrow> Inl e
      | Inr tasks \<Rightarrow>
          Inr ((model_name,
                make_api_call be api model_id
                  [user_message (feedback_prompt question (py_str own) (py_str other))]
                  default_temp) # tasks)))))))))"

text \<open>The second loop: one revised entry for each call that was made.\<close>

fun collect_revised ::
  "answers \<Rightarrow> (string \<times> call_result) list \<Rightarrow> answers \<Rightarrow> exn + answers" where
  "collect_revised original_answers [] revised_answers = Inr revised_answers"
| "collect_revised original_answers ((model_name, result) # rest) revised_answers =
     (case dict_index result ''success'' of
        Inl e \<Rightarrow> Inl e
      | Inr success \<Rightarrow>
     (case dict_index original_answers model_name of
        Inl e \<Rightarrow> Inl e
      | Inr original \<Rightarrow>
          if truthy success then
            (case dict_index result ''content'' of
               Inl e \<Rightarrow> Inl e
             | Inr content \<Rightarrow>
                 collect_revised original_answers rest
                   (dict_set model_name
                      (dict_set ''original_content''
                         (case dict_get original ''content'' of None \<Rightarrow> NoneV | Some c \<Rightarrow> c)
                         (dict_set ''content'' content original))
                      revised_answers))
          else
            (case dict_index result ''error'' of
               Inl e \<Rightarrow> Inl e
             | Inr error \<Rightarrow>
                 collect_revised original_answers rest
                   (dict_set model_name (dict_set ''error'' error original) revised_answers))))"

definition get_revised_answers ::
  "outside \<Rightarrow> (nat \<Rightarrow> nat) \<Rightarrow> handler \<Rightarrow> string \<Rightarrow> answers \<Rightarrow> world
     \<Rightarrow> (exn + answers) \<times> world" where
  "get_revised_answers be delay h question original_answers w =
     (case revision_tasks be (models h) question original_answers (models h) of
        Inl e \<Rightarrow> (Inl e, w)
      | Inr tasks \<Rightarrow>
          (let (results, w') = gather delay (map snd tasks) w in
           (collect_revised original_answers (zip (map fst tasks) results) [], w')))"

section \<open>The validation flow and the rendering of labels\<close>

text \<open>\<^verbatim>\<open>d.get(k)\<close> and \<^verbatim>\<open>d.get(k, default)\<close>.\<close>

definition get_or :: "(string, pyval) dict \<Rightarrow> string \<Rightarrow> pyval \<Rightarrow> pyval" where
  "get_or d k dflt = (case dict_get d k of None \<Rightarrow> dflt | Some v \<Rightarrow> v)"

text \<open>The first loop of \<^verbatim>\<open>process_validation\<close>: every initial entry is labelled Original.\<close>

definition original_entry :: "entry \<Rightarrow> entry" where
  "original_entry data =
     dict_set ''display_name'' (get_or data ''name'' NoneV)
       (dict_set ''label_class'' (Str ''original-label'')
          (dict_set ''label'' (Str ''Original'') data))"

definition label_originals :: "answers \<Rightarrow> answers" where
  "label_originals initial_answers =
     fold (\<lambda>(model_name, data) results. dict_set model_name (original_entry data) results)
       initial_answers []"

text \<open>The loop over \<^verbatim>\<open>revised_answers.items()\<close>, which updates the results in place.\<close>

definition revised_entry :: "entry \<Rightarrow> entry \<Rightarrow> entry" where
  "revised_entry current data =
     (let backfilled =
            (if dict_has current ''content''
             then dict_set ''original_content'' (get_or current ''content'' NoneV) current
             else current)
      in dict_merge backfilled
           (dict_set ''label_class'' (Str ''revised-label'')
              (dict_set ''label'' (Str ''Revised'') data)))"

fun merge_revised :: "answers \<Rightarrow> answers \<Rightarrow> exn + answers" where
  "merge_revised [] results = Inr results"
| "merge_revised ((model_name, data) # rest) results =
     (case dict_index results model_name of
        Inl e \<Rightarrow> Inl e
      | Inr current \<Rightarrow>
          merge_revised rest (dict_set model_name (revised_entry current data) results))"

definition check_mark :: string where
  "check_mark = [CHR 0xE2, CHR 0x9C, CHR 0x85]"

definition agreed_message :: string where
  "agreed_message = check_mark @ '' Models agreed. No re-feedback needed.''"

definition revised_message :: string where
  "revised_message = check_mark @ '' Re-feedback complete. See final answers below.''"

text \<open>
  \<^verbatim>\<open>process_validation\<close> without the progress bar: the final results and the final
  message, or the exception that escapes.
\<close>

definition process_validation ::
  "outside \<Rightarrow> (nat \<Rightarrow> nat) \<Rightarrow> handler \<Rightarrow> string \<Rightarrow> world
     \<Rightarrow> (exn + answers \<times> string) \<times> world" where
  "process_validation be delay h question w =
     (case get_initial_answers be delay h question w of
        (Inl e, w1) \<Rightarrow> (Inl e, w1)
      | (Inr initial_answers, w1) \<Rightarrow>
          (let results = label_originals initial_answers in
           case are_answers_similar be h question initial_answers w1 of
             (Inl e, w2) \<Rightarrow> (Inl e, w2)
           | (Inr answers_are_similar, w2) \<Rightarrow>
               if answers_are_similar then (Inr (results, agreed_message), w2)
               else
                 (case get_revised_answers be delay h question initial_answers w2 of
                    (Inl e, w3) \<Rightarrow> (Inl e, w3)
                  | (Inr revised_answers, w3) \<Rightarrow>
                      (case merge_revised revised_answers results of
                         Inl e \<Rightarrow> (Inl e, w3)
                       | Inr results' \<Rightarrow> (Inr (results', revised_message), w3)))))"


section \<open>Notions used in the statements\<close>

text \<open>
  The text that \<^verbatim>\<open>are_answers_similar\<close> builds for one entry, and the entries of a
  result set that carry a \<^verbatim>\<open>content\<close> key, in the order of the result set.
\<close>

definition answer_text :: "entry \<Rightarrow> string" where
  "answer_text data =
     ''Answer from '' @ py_str (get_or data ''name'' NoneV) @ '':'' @ backslash_n
     @ py_str (get_or data ''content'' NoneV)"

definition content_entries :: "answers \<Rightarrow> entry list" where
  "content_entries answers = map snd (filter (\<lambda>(model, data). dict_has data ''content'') answers)"

text \<open>The judge's prompt as the specification's template writes it: a line break after
  \<^verbatim>\<open>Answer from <name>:\<close>.\<close>

definition template_prompt :: "string \<Rightarrow> string \<Rightarrow> string \<Rightarrow> string \<Rightarrow> string \<Rightarrow> string" where
  "template_prompt question nameA contentA nameB contentB =
     ''The user asked: '' @ dquote @ question @ dquote @ newline
     @ ''I received two answers:'' @ newline
     @ ''---'' @ newline
     @ ''Answer from '' @ nameA @ '':'' @ newline @ contentA @ newline
     @ ''---'' @ newline
     @ ''Answer from '' @ nameB @ '':'' @ newline @ contentB @ newline
     @ ''---'' @ newline
     @ ''Do these answers provide the same core information? Respond with only YES or NO.''"

text \<open>
  A provider configuration as the data model has it: a dictionary with a name, a model
  identifier and an adapter capability. The names of the configured providers, in
  registration order.
\<close>

definition well_formed_config :: "model_config \<Rightarrow> bool" where
  "well_formed_config m =
     (distinct (map fst m) \<and> dict_has m ''name'' \<and> dict_has m ''model_id'' \<and> dict_has m ''api'')"

definition provider_names :: "handler \<Rightarrow> string option list" where
  "provider_names h = map (\<lambda>m. dict_get m ''name'') (models h)"

text \<open>
  The shapes of a call result, and the two entries that the second loop of
  \<^verbatim>\<open>get_revised_answers\<close> builds from an initial entry: the content replaced and the
  prior content recorded, or the error attached.
\<close>

definition is_call_result :: "call_result \<Rightarrow> bool" where
  "is_call_result r =
     ((\<exists>c. r = success_result c) \<or> r = success_none \<or> (\<exists>e. r = failure_result e))"

text \<open>The content of a successful call: a text, or \<^verbatim>\<open>None\<close>.\<close>

fun is_content :: "pyval \<Rightarrow> bool" where
  "is_content (Str text) = True"
| "is_content NoneV = True"
| "is_content (Bool b) = False"

definition revised_on_success :: "entry \<Rightarrow> pyval \<Rightarrow> entry" where
  "revised_on_success original content =
     dict_set ''original_content'' (get_or original ''content'' NoneV)
       (dict_set ''content'' content original)"

definition revised_on_failure :: "entry \<Rightarrow> pyval \<Rightarrow> entry" where
  "revised_on_failure original error = dict_set ''error'' error original"

section \<open>Concrete inputs\<close>

text \<open>Environments, handlers and services at which the theorems below are evaluated.\<close>

definition env_empty_openai :: "string \<Rightarrow> string option" where
  "env_empty_openai = map_of [(''OPENAI_API_KEY'', []), (''GEMINI_API_KEY'', ''g-key'')]"

definition env_both_keys :: "string \<Rightarrow> string option" where
  "env_both_keys = map_of [(''OPENAI_API_KEY'', ''o-key''), (''GEMINI_API_KEY'', ''g-key'')]"

definition default_handler :: handler where
  "default_handler =
     \<lparr>openai_api_key = ''o-key'', gemini_api_key = ''g-key'', models = initial_models,
      judge_model_id = ''gpt-4o-mini'', judge_api = ''openai''\<rparr>"

text \<open>
  Services that answer the \<open>n\<close>-th request with the \<open>n\<close>-th outcome of a script. Their
  case table carries the entry of the long s (U+017F), whose uppercase form is S; it is
  the only letter outside ASCII in the replies at which the theorems are evaluated.
\<close>

definition long_s_table :: "string \<Rightarrow> string" where
  "long_s_table ch = (if ch = [CHR 0xC5, CHR 0xBF] then ''S'' else ch)"

definition scripted :: "outcome list \<Rightarrow> outside" where
  "scripted outcomes =
     \<lparr>respond = (\<lambda>n req. if n < length outcomes then outcomes ! n
                            else Raises ''no response scripted''),
      uppercase = long_s_table\<rparr>"

text \<open>Two completion orders: first issued first, and last issued first.\<close>

definition in_order :: "nat \<Rightarrow> nat" where
  "in_order i = i"

definition reversed :: "nat \<Rightarrow> nat" where
  "reversed i = 100 - i"

definition gpt_entry :: "string \<Rightarrow> entry" where
  "gpt_entry c =
     [(''success'', Bool True), (''content'', Str c), (''name'', Str ''GPT-4o-mini''),
      (''model_id'', Str ''gpt-4o-mini''), (''api'', Str ''openai'')]"

definition gpt_failed_entry :: "string \<Rightarrow> entry" where
  "gpt_failed_entry e =
     [(''success'', Bool False), (''error'', Str e), (''name'', Str ''GPT-4o-mini''),
      (''model_id'', Str ''gpt-4o-mini''), (''api'', Str ''openai'')]"

definition gemini_entry :: "string \<Rightarrow> entry" where
  "gemini_entry c =
     [(''success'', Bool True), (''content'', Str c), (''name'', Str ''Gemini-1.5-Flash''),
      (''model_id'', Str ''gemini-1.5-flash-latest''), (''api'', Str ''gemini'')]"

definition two_answers :: answers where
  "two_answers = [(''GPT-4o-mini'', gpt_entry ''4''), (''Gemini-1.5-Flash'', gemini_entry ''four'')]"

definition one_failed_answers :: answers where
  "one_failed_answers =
     [(''GPT-4o-mini'', gpt_failed_entry ''OpenAI Error: timeout''),
      (''Gemini-1.5-Flash'', gemini_entry ''four'')]"

definition initial_requests :: "string \<Rightarrow> request list" where
  "initial_requests question =
     [OpenAI_request ''gpt-4o-mini'' [user_message question] default_temp,
      Gemini_request ''gemini-1.5-flash-latest'' question default_temp]"

definition three_models_handler :: handler where
  "three_models_handler =
     default_handler\<lparr>models := initial_models @
        [[(''name'', ''GPT-4o''), (''model_id'', ''gpt-4o''), (''api'', ''openai'')]]\<rparr>"

text \<open>
  A run in which the judge answers NO and the second revision call fails, the requests
  issued up to the judge's verdict, and the revised answers of that run.
\<close>

definition disagreeing_backend :: outside where
  "disagreeing_backend =
     scripted [Returns ''4'', Returns ''four'', Returns ''NO'', Returns ''4'', Raises ''timeout'']"

definition failed_revision_answers :: answers where
  "failed_revision_answers =
     [(''GPT-4o-mini'', revised_on_success (gpt_entry ''4'') (Str ''4'')),
      (''Gemini-1.5-Flash'',
       revised_on_failure (gemini_entry ''four'') (Str ''Gemini Error: timeout''))]"

definition judged_requests :: "request list" where
  "judged_requests =
     snd (are_answers_similar disagreeing_backend default_handler ''2+2?'' two_answers
            (initial_requests ''2+2?''))"




section \<open>Dictionaries\<close>

lemma map_of_dict_set: "map_of (dict_set k v d) = (map_of d)(k \<mapsto> v)"
  by (induction d) (auto simp: fun_eq_iff)



lemma set_dict_set: "set (dict_set k v d) \<subseteq> insert (k, v) (set d)"
  by (induction d) auto

lemma dict_set_mem: "(k, v) \<in> set (dict_set k v d)"
  by (induction d) auto

lemma dict_has_set: "dict_has (dict_set k v d) k' = (k' = k \<or> dict_has d k')"
  by (simp add: dict_has_def map_of_dict_set)


lemma dict_index_set: "dict_index (dict_set k v d) k' = (if k' = k then Inr v else dict_index d k')"
  by (simp add: dict_index_def map_of_dict_set)



lemma map_of_fold_dict_set: "map_of (fold (\<lambda>(k, v). dict_set k v) xs d) = map_of d ++ map_of (rev xs)"
  by (induction xs arbitrary: d) (auto simp: map_of_dict_set fun_eq_iff map_add_def split: option.splits)

lemma dict_has_merge: "dict_has (dict_merge d1 d2) k = (dict_has d1 k \<or> dict_has d2 k)"
  apply (simp add: dict_has_def dict_merge_def map_of_fold_dict_set map_add_def split: option.splits)
  by (metis map_of_eq_None_iff set_rev not_None_eq)

lemma dict_index_KeyError: "dict_index d k = Inl e \<Longrightarrow> e = KeyError k"
  by (auto simp: dict_index_def split: option.splits)

lemma dict_index_Inr_iff: "(\<exists>v. dict_index d k = Inr v) = dict_has d k"
  by (auto simp: dict_index_def dict_has_def split: option.splits)

lemma dict_index_get: "dict_index d k = Inr v \<longleftrightarrow> dict_get d k = Some v"
  by (auto simp: dict_index_def dict_get_def split: option.splits)

lemma run_all_length: "length (fst (run_all ts w)) = length ts"
proof (induction ts arbitrary: w)
  case Nil
  then show ?case by simp
next
  case (Cons t ts)
  obtain r w1 where t: "t w = (r, w1)" by (cases "t w")
  obtain rs w2 where r: "run_all ts w1 = (rs, w2)" by (cases "run_all ts w1")
  from Cons [of w1] r have "length rs = length ts" by simp
  then show ?case by (simp add: t r)
qed

lemma map_of_rev_distinct: "distinct (map fst xs) \<Longrightarrow> map_of (rev xs) = map_of xs"
proof (rule ext)
  fix k
  assume d: "distinct (map fst xs)"
  then have d': "distinct (map fst (rev xs))" by (simp add: rev_map [symmetric])
  show "map_of (rev xs) k = map_of xs k"
  proof (cases "map_of xs k")
    case None
    then have "k \<notin> fst ` set (rev xs)" by (simp add: map_of_eq_None_iff)
    then have "map_of (rev xs) k = None" by (metis map_of_eq_None_iff)
    then show ?thesis using None by simp
  next
    case (Some v)
    then have "(k, v) \<in> set (rev xs)" using d by simp
    then show ?thesis using Some d' by simp
  qed
qed

lemma dict_set_fresh: "k \<notin> fst ` set d \<Longrightarrow> dict_set k v d = d @ [(k, v)]"
  by (induction d) auto

section \<open>The join returns the results in the order of the awaitables\<close>

lemma fold_slots_length: "length (fold (\<lambda>i slots. slots[i := Some (rs ! i)]) is slots) = length slots"
  by (induction "is" arbitrary: slots) auto

lemma fold_slots_nth:
  "i < length slots \<Longrightarrow>
   fold (\<lambda>i slots. slots[i := Some (rs ! i)]) is slots ! i = (if i \<in> set is then Some (rs ! i) else slots ! i)"
  by (induction "is" arbitrary: slots) (auto simp: nth_list_update)

lemma deliver_id: "deliver delay rs = rs"
  by (rule nth_equalityI)
     (simp_all add: deliver_def completion_order_def fold_slots_length fold_slots_nth)

lemma gather_run_all: "gather delay tasks w = run_all tasks w"
  by (simp add: gather_def deliver_id split: prod.splits)

section \<open>The provider adapters\<close>

lemma make_api_call_shape:
  "(\<exists>c. fst (make_api_call be api model_id messages temp w) = success_result c)
   \<or> fst (make_api_call be api model_id messages temp w) = success_none
   \<or> (\<exists>e. fst (make_api_call be api model_id messages temp w) = failure_result e)"
  by (auto simp: make_api_call_def call_openai_def call_gemini_sync_def Let_def
           split: outcome.splits sum.splits)

text \<open>
  Claim C7. Whatever the services do, an adapter returns a dictionary: when the SDK call
  raises \<open>e\<close> the result is \<^verbatim>\<open>{"success": False, "error": "OpenAI Error: e"}\<close>
  (respectively \<^verbatim>\<open>"Gemini Error: e"\<close>), and when it returns, the result is
  \<^verbatim>\<open>{"success": True, "content": c}\<close> with the content \<open>c\<close> of the response, a text
  or \<^verbatim>\<open>None\<close>. For Gemini, a \<^verbatim>\<open>KeyError\<close> raised while the prompt is built is
  caught in the same way. So every call made through \<^verbatim>\<open>_make_api_call\<close>, for any
  capability tag, returns one of the structured results.
\<close>

theorem adapters_catch_every_failure:
  "fst (call_openai be model_id messages temp w) =
     (case respond be (length w) (OpenAI_request model_id messages temp) of
        Returns c \<Rightarrow> [(''success'', Bool True), (''content'', Str c)]
      | Returns_None \<Rightarrow> [(''success'', Bool True), (''content'', NoneV)]
      | Raises e \<Rightarrow> [(''success'', Bool False), (''error'', Str (''OpenAI Error: '' @ e))])
   \<and> fst (call_gemini_sync be model_id messages temp w) =
     (case gemini_messages messages of
        Inl err \<Rightarrow> [(''success'', Bool False), (''error'', Str (''Gemini Error: '' @ exn_str err))]
      | Inr gms \<Rightarrow>
          (case respond be (length w) (Gemini_request model_id (join backslash_n gms) temp) of
             Returns c \<Rightarrow> [(''success'', Bool True), (''content'', Str c)]
           | Returns_None \<Rightarrow> [(''success'', Bool True), (''content'', NoneV)]
           | Raises e \<Rightarrow> [(''success'', Bool False), (''error'', Str (''Gemini Error: '' @ e))]))
   \<and> ((\<exists>c. fst (make_api_call be api model_id messages temp w)
              = [(''success'', Bool True), (''content'', Str c)])
        \<or> fst (make_api_call be api model_id messages temp w)
              = [(''success'', Bool True), (''content'', NoneV)]
        \<or> (\<exists>e. fst (make_api_call be api model_id messages temp w)
              = [(''success'', Bool False), (''error'', Str e)]))"
proof -
  have adapters: "fst (call_openai be model_id messages temp w) =
     (case respond be (length w) (OpenAI_request model_id messages temp) of
        Returns c \<Rightarrow> [(''success'', Bool True), (''content'', Str c)]
      | Returns_None \<Rightarrow> [(''success'', Bool True), (''content'', NoneV)]
      | Raises e \<Rightarrow> [(''success'', Bool False), (''error'', Str (''OpenAI Error: '' @ e))])
   \<and> fst (call_gemini_sync be model_id messages temp w) =
     (case gemini_messages messages of
        Inl err \<Rightarrow> [(''success'', Bool False), (''error'', Str (''Gemini Error: '' @ exn_str err))]
      | Inr gms \<Rightarrow>
          (case respond be (length w) (Gemini_request model_id (join backslash_n gms) temp) of
             Returns c \<Rightarrow> [(''success'', Bool True), (''content'', Str c)]
           | Returns_None \<Rightarrow> [(''success'', Bool True), (''content'', NoneV)]
           | Raises e \<Rightarrow> [(''success'', Bool False), (''error'', Str (''Gemini Error: '' @ e))]))"
    by (simp add: call_openai_def call_gemini_sync_def success_result_def success_none_def
          failure_result_def Let_def split: outcome.splits sum.splits)
  have dispatch: "(\<exists>c. fst (make_api_call be api model_id messages temp w)
              = [(''success'', Bool True), (''content'', Str c)])
        \<or> fst (make_api_call be api model_id messages temp w)
              = [(''success'', Bool True), (''content'', NoneV)]
        \<or> (\<exists>e. fst (make_api_call be api model_id messages temp w)
              = [(''success'', Bool False), (''error'', Str e)])"
    using make_api_call_shape [of be api model_id messages temp w]
    by (simp add: success_result_def success_none_def failure_result_def)
  from adapters dispatch show ?thesis by blast
qed

section \<open>Construction of the handler\<close>

text \<open>
  Claim C8, as stated, fails: a key that is present but empty also makes the construction
  fail, because the test is \<^verbatim>\<open>not key\<close>.
\<close>

theorem init_empty_key_counterexample:
  "env_empty_openai ''OPENAI_API_KEY'' \<noteq> None \<and> env_empty_openai ''GEMINI_API_KEY'' \<noteq> None
   \<and> LLMHandler_init env_empty_openai = Inl (ValueError ''OPENAI_API_KEY not found in .env file.'')"
  by (simp add: env_empty_openai_def LLMHandler_init_def)

text \<open>
  Claim C8, amended. Constructing the handler fails with a \<^verbatim>\<open>ValueError\<close> if and only
  if one of the two API keys is unset or empty; when both are set and non-empty the
  construction succeeds with the two initial models and the OpenAI judge; and the three
  calling methods do not depend on the stored keys, so no credential is checked per call.
\<close>

theorem init_fails_iff_key_unset_or_empty:
  "((\<exists>msg. LLMHandler_init getenv = Inl (ValueError msg))
      \<longleftrightarrow> getenv ''OPENAI_API_KEY'' = None \<or> getenv ''OPENAI_API_KEY'' = Some []
          \<or> getenv ''GEMINI_API_KEY'' = None \<or> getenv ''GEMINI_API_KEY'' = Some [])
   \<and> (getenv ''OPENAI_API_KEY'' = Some ok \<and> ok \<noteq> [] \<and> getenv ''GEMINI_API_KEY'' = Some gk \<and> gk \<noteq> []
        \<longrightarrow> LLMHandler_init getenv =
              Inr \<lparr>openai_api_key = ok, gemini_api_key = gk, models = initial_models,
                   judge_model_id = ''gpt-4o-mini'', judge_api = ''openai''\<rparr>)
   \<and> get_initial_answers be delay (h\<lparr>openai_api_key := a, gemini_api_key := b\<rparr>) question w
       = get_initial_answers be delay h question w
   \<and> are_answers_similar be (h\<lparr>openai_api_key := a, gemini_api_key := b\<rparr>) question answers w
       = are_answers_similar be h question answers w
   \<and> get_revised_answers be delay (h\<lparr>openai_api_key := a, gemini_api_key := b\<rparr>) question answers w
       = get_revised_answers be delay h question answers w"
proof -
  let ?h = "h\<lparr>openai_api_key := a, gemini_api_key := b\<rparr>"
  have init: "(\<exists>msg. LLMHandler_init getenv = Inl (ValueError msg))
      \<longleftrightarrow> getenv ''OPENAI_API_KEY'' = None \<or> getenv ''OPENAI_API_KEY'' = Some []
          \<or> getenv ''GEMINI_API_KEY'' = None \<or> getenv ''GEMINI_API_KEY'' = Some []"
    by (auto simp: LLMHandler_init_def split: option.splits)
  have ok: "getenv ''OPENAI_API_KEY'' = Some ok \<and> ok \<noteq> [] \<and> getenv ''GEMINI_API_KEY'' = Some gk \<and> gk \<noteq> []
        \<longrightarrow> LLMHandler_init getenv =
              Inr \<lparr>openai_api_key = ok, gemini_api_key = gk, models = initial_models,
                   judge_model_id = ''gpt-4o-mini'', judge_api = ''openai''\<rparr>"
    by (simp add: LLMHandler_init_def)
  have fields: "models ?h = models h" "judge_api ?h = judge_api h"
    "judge_model_id ?h = judge_model_id h"
    by simp_all
  have g1: "get_initial_answers be delay ?h question w = get_initial_answers be delay h question w"
    unfolding get_initial_answers_def fields ..
  have g2: "are_answers_similar be ?h question answers w = are_answers_similar be h question answers w"
    unfolding are_answers_similar_def fields ..
  have g3: "get_revised_answers be delay ?h question answers w
       = get_revised_answers be delay h question answers w"
    unfolding get_revised_answers_def fields ..
  from init ok g1 g2 g3 show ?thesis by blast
qed

theorem init_fails_iff_key_unset_or_empty_witness:
  "LLMHandler_init env_both_keys = Inr default_handler"
  using init_fails_iff_key_unset_or_empty [of env_both_keys "''o-key''" "''g-key''"]
  by (simp add: env_both_keys_def default_handler_def)

section \<open>Models registered by \<^verbatim>\<open>add_model\<close>\<close>

lemma initial_tasks_append_no_api:
  "\<not> dict_has m ''api'' \<Longrightarrow> \<exists>k. initial_tasks be messages (ms @ [m]) = Inl (KeyError k)"
proof (induction ms)
  case Nil
  then show ?case by (simp add: dict_index_def dict_has_def)
next
  case (Cons a ms)
  then obtain k where "initial_tasks be messages (ms @ [m]) = Inl (KeyError k)" by blast
  then show ?case
    by (auto simp: dict_index_def split: option.splits)
qed

lemma initial_tasks_missing_api:
  "m \<in> set ms \<Longrightarrow> \<not> dict_has m ''api'' \<Longrightarrow>
   \<exists>k. initial_tasks be messages ms = Inl (KeyError k)"
proof (induction ms)
  case Nil
  then show ?case by simp
next
  case (Cons a ms)
  show ?case
  proof (cases "dict_has a ''api''")
    case False
    then show ?thesis by (simp add: dict_index_def dict_has_def)
  next
    case True
    with Cons.prems have "m \<in> set ms" by auto
    from Cons.IH [OF this Cons.prems(2)] obtain k where
      "initial_tasks be messages ms = Inl (KeyError k)" by blast
    then show ?thesis
      by (auto simp: dict_index_def split: option.splits)
  qed
qed

lemma initial_tasks_total:
  "\<forall>m\<in>set ms. dict_has m ''api'' \<and> dict_has m ''model_id'' \<Longrightarrow> \<exists>ts. initial_tasks be messages ms = Inr ts \<and> length ts = length ms"
  by (induction ms) (auto simp: dict_index_def dict_has_def split: option.splits)

lemma initial_tasks_append_no_api':
  "\<not> dict_has m ''api'' \<Longrightarrow> \<forall>m\<in>set ms. dict_has m ''api'' \<and> dict_has m ''model_id''
   \<Longrightarrow> initial_tasks be messages (ms @ [m]) = Inl (KeyError ''api'')"
  by (induction ms) (auto simp: dict_index_def dict_has_def split: option.splits)

text \<open>
  Claim C10. The model appended by \<^verbatim>\<open>add_model\<close> has no \<^verbatim>\<open>api\<close> key, so the next
  initial gather raises \<^verbatim>\<open>KeyError\<close> while the coroutines are built: nothing is
  returned, no request is issued, and no error entry is recorded for the new model. When
  the models already registered are complete, the missing key reported is \<^verbatim>\<open>api\<close>.
  The same holds for every configuration that contains a model without \<^verbatim>\<open>api\<close>,
  wherever it stands in the list.
\<close>

theorem add_model_breaks_initial_gather:
  "\<not> dict_has (last (models (add_model name model_id display_name h))) ''api''
   \<and> (\<exists>k. get_initial_answers be delay (add_model name model_id display_name h) question w
             = (Inl (KeyError k), w))
   \<and> ((\<forall>m\<in>set (models h). dict_has m ''api'' \<and> dict_has m ''model_id'')
        \<longrightarrow> get_initial_answers be delay (add_model name model_id display_name h) question w
              = (Inl (KeyError ''api''), w))
   \<and> ((\<exists>m\<in>set (models g). \<not> dict_has m ''api'')
        \<longrightarrow> (\<exists>k. get_initial_answers be delay g question w = (Inl (KeyError k), w)))"
proof -
  have any: "(\<exists>m\<in>set (models g). \<not> dict_has m ''api'')
        \<longrightarrow> (\<exists>k. get_initial_answers be delay g question w = (Inl (KeyError k), w))"
  proof
    assume "\<exists>m\<in>set (models g). \<not> dict_has m ''api''"
    then obtain m where "m \<in> set (models g)" "\<not> dict_has m ''api''" by blast
    from initial_tasks_missing_api [OF this] obtain k where
      "initial_tasks be [user_message question] (models g) = Inl (KeyError k)" by blast
    then show "\<exists>k. get_initial_answers be delay g question w = (Inl (KeyError k), w)"
      by (simp add: get_initial_answers_def)
  qed
  let ?m = "[(''name'', name), (''model_id'', model_id),
             (''display_name'', case display_name of None \<Rightarrow> name | Some d \<Rightarrow> d)]"
  have ms: "models (add_model name model_id display_name h) = models h @ [?m]"
    by (simp add: add_model_def)
  have no: "\<not> dict_has ?m ''api''" by (simp add: dict_has_def)
  from initial_tasks_append_no_api [OF no]
  obtain k where "initial_tasks be [user_message question] (models h @ [?m]) = Inl (KeyError k)"
    by blast
  moreover have "(\<forall>m\<in>set (models h). dict_has m ''api'' \<and> dict_has m ''model_id'')
     \<longrightarrow> initial_tasks be [user_message question] (models h @ [?m]) = Inl (KeyError ''api'')"
    using initial_tasks_append_no_api' [OF no] by blast
  ultimately have "\<not> dict_has (last (models (add_model name model_id display_name h))) ''api''
   \<and> (\<exists>k. get_initial_answers be delay (add_model name model_id display_name h) question w
             = (Inl (KeyError k), w))
   \<and> ((\<forall>m\<in>set (models h). dict_has m ''api'' \<and> dict_has m ''model_id'')
        \<longrightarrow> get_initial_answers be delay (add_model name model_id display_name h) question w
              = (Inl (KeyError ''api''), w))"
    using no by (auto simp: get_initial_answers_def ms)
  with any show ?thesis by blast
qed

theorem add_model_breaks_initial_gather_witness:
  "get_initial_answers (scripted [Returns ''4'', Returns ''four'', Returns ''five'']) in_order
     (add_model ''Claude'' ''claude-3'' None default_handler) ''2+2?'' []
     = (Inl (KeyError ''api''), [])"
  using add_model_breaks_initial_gather
    [of "''Claude''" "''claude-3''" None default_handler
        "scripted [Returns ''4'', Returns ''four'', Returns ''five'']" in_order "''2+2?''" "[]"]
  by (simp add: default_handler_def initial_models_def dict_has_def)

section \<open>The entries of the initial gather\<close>

lemma dict_has_as_entry: "dict_has (as_entry m) k = dict_has m k"
  by (induction m) (auto simp: dict_has_def as_entry_def)

lemma dict_index_get_or: "dict_index d k = Inr v \<Longrightarrow> get_or d k dflt = v"
  by (auto simp: dict_index_def get_or_def dict_get_def split: option.splits)

lemma answer_list_named:
  "\<forall>(model, data)\<in>set answers. dict_has data ''content'' \<longrightarrow> dict_has data ''name''
   \<Longrightarrow> answer_list answers = Inr (map answer_text (content_entries answers))"
proof (induction answers)
  case Nil
  then show ?case by (simp add: content_entries_def)
next
  case (Cons p answers)
  obtain model data where p: "p = (model, data)" by (cases p)
  from Cons have IH: "answer_list answers = Inr (map answer_text (content_entries answers))"
    by simp
  show ?case
  proof (cases "dict_has data ''content''")
    case False
    then show ?thesis using IH by (simp add: p content_entries_def)
  next
    case True
    with Cons.prems p have "dict_has data ''name''" by simp
    then obtain n where n: "dict_index data ''name'' = Inr n"
      by (auto simp: dict_index_def dict_has_def)
    from True obtain c where c: "dict_index data ''content'' = Inr c"
      by (auto simp: dict_index_def dict_has_def)
    show ?thesis
      using True n c IH
      by (simp add: p content_entries_def answer_text_def dict_index_get_or)
  qed
qed

lemma collect_answers_named:
  "collect_answers zs acc = Inr answers \<Longrightarrow> \<forall>(n, e)\<in>set acc. dict_has e ''name''
   \<Longrightarrow> \<forall>(n, e)\<in>set answers. dict_has e ''name''"
proof (induction zs arbitrary: acc)
  case Nil
  then show ?case by simp
next
  case (Cons z zs)
  obtain r m where z: "z = (r, m)" by (cases z)
  from Cons.prems(1) obtain name where
    name: "dict_index m ''name'' = Inr name" and
    rest: "collect_answers zs (dict_set name (dict_merge r (as_entry m)) acc) = Inr answers"
    by (auto simp: z split: sum.splits)
  from name have "dict_has m ''name''"
    by (auto simp: dict_index_def dict_has_def split: option.splits)
  then have "dict_has (dict_merge r (as_entry m)) ''name''"
    by (simp add: dict_has_merge dict_has_as_entry)
  with Cons.prems(2) have "\<forall>(n, e)\<in>set (dict_set name (dict_merge r (as_entry m)) acc). dict_has e ''name''"
    using set_dict_set [of name "dict_merge r (as_entry m)" acc] by auto
  from Cons.IH [OF rest this] show ?case .
qed

lemma initial_answers_named:
  assumes "get_initial_answers be delay h question w = (Inr answers, w1)"
  shows "\<forall>(n, e)\<in>set answers. dict_has e ''name''"
  using assms
  by (auto simp: get_initial_answers_def split: sum.splits prod.splits
           dest!: collect_answers_named)

lemma initial_two_answers:
  "get_initial_answers (scripted (Returns ''4'' # Returns ''four'' # rest)) delay default_handler ''2+2?'' []
     = (Inr two_answers, initial_requests ''2+2?'')"
  by (simp add: get_initial_answers_def default_handler_def initial_models_def dict_index_def
        gather_run_all make_api_call_def call_openai_def call_gemini_sync_def scripted_def
        user_message_def success_result_def dict_merge_def as_entry_def two_answers_def
        gpt_entry_def gemini_entry_def initial_requests_def Let_def)


lemma no_yes_empty: "upper table (strip []) \<noteq> ''YES''"
  by (simp add: upper_def strip_def)

section \<open>The judge\<close>

lemma answer_list_two: "answer_list two_answers =
   Inr [''Answer from GPT-4o-mini:'' @ backslash_n @ ''4'',
        ''Answer from Gemini-1.5-Flash:'' @ backslash_n @ ''four'']"
  by (simp add: two_answers_def gpt_entry_def gemini_entry_def dict_has_def dict_index_def)

text \<open>
  What the judging step returns when it reaches the judge (at least two entries carry
  content), by the outcome of the judge's call: a reply with a text is agreement exactly
  when the text, stripped and put in upper case, equals \<^verbatim>\<open>YES\<close>; a call that raises is
  disagreement; a reply without text makes \<^verbatim>\<open>.strip()\<close> raise.
\<close>

lemma judge_step_outcomes:
  assumes "answer_list answers = Inr al" and "2 \<le> length al" and "judge_api h = ''openai''"
  shows "fst (are_answers_similar be h question answers w)
         = (case respond be (length w)
                   (OpenAI_request (judge_model_id h)
                      [user_message (comparison_prompt question (al ! 0) (al ! 1))] 0) of
              Returns reply \<Rightarrow> Inr (upper (uppercase be) (strip reply) = ''YES'')
            | Returns_None \<Rightarrow> Inl (AttributeError (no_attribute ''NoneType'' ''strip''))
            | Raises e \<Rightarrow> Inr False)"
  using assms
  by (auto simp: are_answers_similar_def make_api_call_def call_openai_def Let_def
        judge_verdict_def success_result_def success_none_def failure_result_def dict_get_def
        no_yes_empty split: outcome.splits)

text \<open>
  Replies in which the whitespace or the letters are outside ASCII: a no-break space
  before and an ideographic space after \<^verbatim>\<open>Yes\<close>, and \<^verbatim>\<open>ye\<close> followed by a long s,
  are agreement; a sentence that starts with \<^verbatim>\<open>Yes\<close> and a failed call are not.
\<close>

lemma judge_step_examples:
  "fst (are_answers_similar
          (scripted [Returns ([CHR 0xC2, CHR 0xA0] @ ''Yes'' @ [CHR 0xE3, CHR 0x80, CHR 0x80])])
          default_handler ''2+2?'' two_answers []) = Inr True
   \<and> fst (are_answers_similar (scripted [Returns (''ye'' @ [CHR 0xC5, CHR 0xBF])])
          default_handler ''2+2?'' two_answers []) = Inr True
   \<and> fst (are_answers_similar (scripted [Returns ('' yes'' @ newline)])
          default_handler ''2+2?'' two_answers []) = Inr True
   \<and> fst (are_answers_similar (scripted [Returns ''Yes, they agree''])
          default_handler ''2+2?'' two_answers []) = Inr False
   \<and> fst (are_answers_similar (scripted [Raises ''timeout''])
          default_handler ''2+2?'' two_answers []) = Inr False"
  by code_simp

text \<open>
  Claim C1, evaluated where it fails. For a reply with a text and for a call that raises,
  the judging step does what the claim says. But the content of a successful reply can be
  \<^verbatim>\<open>None\<close>: then \<^verbatim>\<open>result.get("content", "")\<close> finds the key and returns
  \<^verbatim>\<open>None\<close>, not the default, and \<^verbatim>\<open>.strip()\<close> raises \<^verbatim>\<open>AttributeError\<close> where the
  claim has disagreement. The exception escapes the judging step and the whole validation
  flow, so no revision round takes place.
\<close>

theorem judge_reply_without_text_raises:
  "fst (are_answers_similar (scripted [Returns_None]) default_handler ''2+2?'' two_answers [])
     = Inl (AttributeError (no_attribute ''NoneType'' ''strip''))
   \<and> fst (process_validation (scripted [Returns ''4'', Returns ''four'', Returns_None]) in_order
            default_handler ''2+2?'' [])
     = Inl (AttributeError (no_attribute ''NoneType'' ''strip''))"
  by code_simp



text \<open>
  The request of the judging step, for any result set of the initial gather with at least
  two content-bearing entries: one request at temperature 0, built from the first two of
  them in the order of the result set.
\<close>

lemma judge_request_sent:
  assumes "get_initial_answers be delay h question w = (Inr answers, w1)"
      and "2 \<le> length (content_entries answers)"
      and "judge_api h = ''openai''"
  shows "snd (are_answers_similar be' h question answers w1)
         = w1 @ [OpenAI_request (judge_model_id h)
                   [user_message
                      (comparison_prompt question
                         (answer_text (content_entries answers ! 0))
                         (answer_text (content_entries answers ! 1)))] 0]"
proof -
  from initial_answers_named [OF assms(1)]
  have "\<forall>(n, e)\<in>set answers. dict_has e ''content'' \<longrightarrow> dict_has e ''name''" by auto
  then have al: "answer_list answers = Inr (map answer_text (content_entries answers))"
    by (rule answer_list_named)
  from assms(2) have "0 < length (content_entries answers)"
    "1 < length (content_entries answers)" by linarith+
  then have n: "map answer_text (content_entries answers) ! 0
        = answer_text (content_entries answers ! 0)"
    "map answer_text (content_entries answers) ! 1
        = answer_text (content_entries answers ! 1)"
    by (simp_all only: nth_map)
  show ?thesis
    using assms(2,3) n
    by (simp add: are_answers_similar_def al make_api_call_def call_openai_def Let_def
          split: prod.splits)
qed

text \<open>
  Claim C6, evaluated on two answers. The request sent to the judge has temperature 0 and
  embeds the first two content-bearing entries, but each answer is introduced by
  \<^verbatim>\<open>Answer from <name>:\<close> followed by a backslash and the letter n, not by a line
  break: the prompt differs from the template of the specification.
\<close>

theorem judge_prompt_has_backslash_n:
  "snd (are_answers_similar (scripted [Returns ''YES'']) default_handler ''2+2?'' two_answers [])
     = [OpenAI_request ''gpt-4o-mini''
          [user_message
             (comparison_prompt ''2+2?''
                (''Answer from GPT-4o-mini:'' @ backslash_n @ ''4'')
                (''Answer from Gemini-1.5-Flash:'' @ backslash_n @ ''four''))] 0]
   \<and> comparison_prompt ''2+2?''
         (''Answer from GPT-4o-mini:'' @ backslash_n @ ''4'')
         (''Answer from Gemini-1.5-Flash:'' @ backslash_n @ ''four'')
       \<noteq> template_prompt ''2+2?'' ''GPT-4o-mini'' ''4'' ''Gemini-1.5-Flash'' ''four''"
  by (simp add: are_answers_similar_def answer_list_two default_handler_def make_api_call_def
        call_openai_def Let_def comparison_prompt_def template_prompt_def backslash_n_def
        newline_def dquote_def)

section \<open>The revision step\<close>

text \<open>
  Claim C3, evaluated where it fails. The guard of \<^verbatim>\<open>get_revised_answers\<close> tests
  whether the provider's name is a key of the initial result set, not whether its entry has
  a content. Called on the result set of an initial gather in which one provider failed, it
  raises \<^verbatim>\<open>KeyError\<close> instead of skipping that provider; with three configured
  providers of which the third fails, the exception escapes the whole validation flow.
\<close>

theorem revision_raises_on_entry_without_content:
  "get_revised_answers (scripted []) in_order default_handler ''2+2?'' one_failed_answers []
     = (Inl (KeyError ''content''), [])
   \<and> fst (process_validation
            (scripted [Returns ''4'', Returns ''four'', Raises ''timeout'', Returns ''NO''])
            in_order three_models_handler ''2+2?'' [])
     = Inl (KeyError ''content'')"
  by code_simp

section \<open>The result set of the initial gather\<close>

lemma collect_answers_distinct:
  "length rs = length ms \<Longrightarrow>
   \<forall>m\<in>set ms. dict_has m ''name'' \<Longrightarrow>
   distinct (map (\<lambda>m. dict_get m ''name'') ms) \<Longrightarrow>
   \<forall>m\<in>set ms. \<forall>n. dict_get m ''name'' = Some n \<longrightarrow> n \<notin> fst ` set acc \<Longrightarrow>
   \<exists>answers. collect_answers (zip rs ms) acc = Inr (acc @ answers)
      \<and> length answers = length ms
      \<and> (\<forall>i<length ms. dict_get (ms ! i) ''name'' = Some (fst (answers ! i))
             \<and> snd (answers ! i) = dict_merge (rs ! i) (as_entry (ms ! i)))"
proof (induction ms arbitrary: rs acc)
  case Nil
  then show ?case by simp
next
  case (Cons m ms)
  from Cons.prems(1) obtain r rs' where rs: "rs = r # rs'" and len: "length rs' = length ms"
    by (cases rs) auto
  from Cons.prems(2) obtain n where n: "dict_get m ''name'' = Some n"
    by (auto simp: dict_has_def dict_get_def)
  then have idx: "dict_index m ''name'' = Inr n" by (simp add: dict_index_get)
  from Cons.prems(4) n have fresh: "n \<notin> fst ` set acc" by auto
  let ?e = "dict_merge r (as_entry m)"
  have acc': "dict_set n ?e acc = acc @ [(n, ?e)]" using fresh by (rule dict_set_fresh)
  have "\<forall>m'\<in>set ms. \<forall>n'. dict_get m' ''name'' = Some n' \<longrightarrow> n' \<notin> fst ` set (acc @ [(n, ?e)])"
  proof (intro ballI allI impI)
    fix m' n' assume m': "m' \<in> set ms" and n': "dict_get m' ''name'' = Some n'"
    from Cons.prems(3) m' n n' have "n' \<noteq> n" by (auto simp: image_iff)
    moreover from Cons.prems(4) m' n' have "n' \<notin> fst ` set acc" by auto
    ultimately show "n' \<notin> fst ` set (acc @ [(n, ?e)])" by auto
  qed
  with Cons.IH [OF len, of "acc @ [(n, ?e)]"] Cons.prems(2,3)
  obtain answers where
    a: "collect_answers (zip rs' ms) (acc @ [(n, ?e)]) = Inr ((acc @ [(n, ?e)]) @ answers)"
    and l: "length answers = length ms"
    and ent: "\<forall>i<length ms. dict_get (ms ! i) ''name'' = Some (fst (answers ! i))
             \<and> snd (answers ! i) = dict_merge (rs' ! i) (as_entry (ms ! i))"
    by auto
  have "collect_answers (zip rs (m # ms)) acc = Inr (acc @ ((n, ?e) # answers))"
    using a by (simp add: rs idx acc')
  moreover have "length ((n, ?e) # answers) = length (m # ms)" using l by simp
  moreover have "\<forall>i<length (m # ms). dict_get ((m # ms) ! i) ''name'' = Some (fst (((n, ?e) # answers) ! i))
             \<and> snd (((n, ?e) # answers) ! i) = dict_merge (rs ! i) (as_entry ((m # ms) ! i))"
    using ent n by (auto simp: rs nth_Cons split: nat.splits)
  ultimately show ?case by blast
qed

text \<open>
  Claim C9. For every configuration of well-formed providers with distinct names and every
  backend, the initial gather returns a result set, the same for every completion order
  of the calls, with one entry per configured provider: the keys are the provider names in
  registration order, they are distinct, and the entry at each position carries the name
  and the model identifier of the provider at that position.
\<close>

theorem initial_gather_one_entry_per_provider:
  assumes "\<forall>m\<in>set (models h). well_formed_config m"
      and "distinct (provider_names h)"
  shows "\<exists>answers w'.
           (\<forall>delay. get_initial_answers be delay h question w = (Inr answers, w'))
           \<and> length answers = length (models h)
           \<and> map (Some \<circ> fst) answers = provider_names h
           \<and> distinct (map fst answers)
           \<and> (\<forall>i<length (models h).
                 dict_get (snd (answers ! i)) ''name'' = Some (Str (fst (answers ! i)))
                 \<and> dict_get (snd (answers ! i)) ''model_id''
                    = map_option Str (dict_get (models h ! i) ''model_id''))"
proof -
  from assms(1) have "\<forall>m\<in>set (models h). dict_has m ''api'' \<and> dict_has m ''model_id''"
    by (simp add: well_formed_config_def)
  from initial_tasks_total [OF this]
  obtain ts where ts: "initial_tasks be [user_message question] (models h) = Inr ts"
    and lts: "length ts = length (models h)" by blast
  obtain rs w' where run: "run_all ts w = (rs, w')" by (cases "run_all ts w")
  have lrs: "length rs = length (models h)"
    using run_all_length [of ts w] run lts by simp
  have named: "\<forall>m\<in>set (models h). dict_has m ''name''"
    using assms(1) by (simp add: well_formed_config_def)
  from collect_answers_distinct [OF lrs named, of "[]"] assms(2)
  obtain answers where
    col: "collect_answers (zip rs (models h)) [] = Inr answers"
    and la: "length answers = length (models h)"
    and ent: "\<forall>i<length (models h). dict_get (models h ! i) ''name'' = Some (fst (answers ! i))
             \<and> snd (answers ! i) = dict_merge (rs ! i) (as_entry (models h ! i))"
    by (auto simp: provider_names_def)
  have all: "\<forall>delay. get_initial_answers be delay h question w = (Inr answers, w')"
    by (simp add: get_initial_answers_def ts gather_run_all run col)
  have keys: "map (Some \<circ> fst) answers = provider_names h"
    by (rule nth_equalityI) (use la ent in \<open>auto simp: provider_names_def\<close>)
  have dist: "distinct (map fst answers)"
  proof -
    have "distinct (map (Some \<circ> fst) answers)" using keys assms(2) by simp
    then show ?thesis by (auto simp: distinct_map inj_on_def)
  qed
  have fields: "\<forall>i<length (models h).
                 dict_get (snd (answers ! i)) ''name'' = Some (Str (fst (answers ! i)))
                 \<and> dict_get (snd (answers ! i)) ''model_id''
                    = map_option Str (dict_get (models h ! i) ''model_id'')"
  proof (intro allI impI)
    fix i assume i: "i < length (models h)"
    let ?m = "models h ! i"
    from i have wf: "well_formed_config ?m" using assms(1) by simp
    then have d: "distinct (map fst ?m)" by (simp add: well_formed_config_def)
    have mo: "map_of (rev (as_entry ?m)) = map_option Str \<circ> map_of ?m"
    proof -
      have "distinct (map fst (as_entry ?m))" using d by (simp add: as_entry_def case_prod_unfold comp_def)
      then have "map_of (rev (as_entry ?m)) = map_of (as_entry ?m)"
        by (rule map_of_rev_distinct)
      also have "\<dots> = map_option Str \<circ> map_of ?m"
        by (simp add: as_entry_def map_of_map fun_eq_iff)
      finally show ?thesis .
    qed
    have look: "dict_get (dict_merge r (as_entry ?m)) k = map_option Str (dict_get ?m k)"
      if "dict_has ?m k" for r k
      using that
      by (auto simp: dict_get_def dict_has_def dict_merge_def map_of_fold_dict_set mo map_add_def
               split: option.splits)
    from wf have hn: "dict_has ?m ''name''" and hm: "dict_has ?m ''model_id''"
      by (simp_all add: well_formed_config_def)
    from ent i have e: "snd (answers ! i) = dict_merge (rs ! i) (as_entry ?m)"
      and n: "dict_get ?m ''name'' = Some (fst (answers ! i))" by auto
    show "dict_get (snd (answers ! i)) ''name'' = Some (Str (fst (answers ! i)))
                 \<and> dict_get (snd (answers ! i)) ''model_id''
                    = map_option Str (dict_get (models h ! i) ''model_id'')"
      by (simp add: e look [OF hn] look [OF hm] n)
  qed
  from all la keys dist fields show ?thesis by blast
qed

theorem initial_gather_one_entry_per_provider_witness:
  "get_initial_answers (scripted [Returns ''4'', Returns ''four'']) reversed default_handler ''2+2?'' []
     = (Inr two_answers, initial_requests ''2+2?'')
   \<and> get_initial_answers (scripted [Returns ''4'', Returns ''four'']) in_order default_handler ''2+2?'' []
     = (Inr two_answers, initial_requests ''2+2?'')
   \<and> map (Some \<circ> fst) two_answers = provider_names default_handler"
proof -
  have wf: "\<forall>m\<in>set (models default_handler). well_formed_config m"
    by (simp add: default_handler_def initial_models_def well_formed_config_def dict_has_def)
  have d: "distinct (provider_names default_handler)"
    by (simp add: provider_names_def default_handler_def initial_models_def dict_get_def)
  from initial_gather_one_entry_per_provider [OF wf d, of "scripted [Returns ''4'', Returns ''four'']" "''2+2?''" "[]"]
  obtain answers w' where
    a: "\<forall>delay. get_initial_answers (scripted [Returns ''4'', Returns ''four'']) delay default_handler ''2+2?'' [] = (Inr answers, w')"
    and k: "map (Some \<circ> fst) answers = provider_names default_handler"
    by blast
  from a initial_two_answers [of "[]" in_order] have "answers = two_answers" "w' = initial_requests ''2+2?''"
    by auto
  with a k show ?thesis by simp
qed

section \<open>Content and error in the entries\<close>

lemma make_api_call_result: "is_call_result (fst (make_api_call be api model_id messages temp w))"
  using make_api_call_shape [of be api model_id messages temp w]
  by (simp add: is_call_result_def)

lemma initial_tasks_results:
  "initial_tasks be messages ms = Inr ts \<Longrightarrow> \<forall>t\<in>set ts. \<forall>w. is_call_result (fst (t w))"
proof (induction ms arbitrary: ts)
  case Nil
  then show ?case by simp
next
  case (Cons m ms)
  from Cons.prems obtain api model_id ts' where
    ts: "ts = make_api_call be api model_id messages default_temp # ts'"
    and rest: "initial_tasks be messages ms = Inr ts'"
    by (auto split: sum.splits)
  from Cons.IH [OF rest] show ?case
    by (simp add: ts make_api_call_result)
qed

lemma run_all_results:
  "\<forall>t\<in>set ts. \<forall>w. P (fst (t w)) \<Longrightarrow> \<forall>r\<in>set (fst (run_all ts w)). P r"
proof (induction ts arbitrary: w)
  case Nil
  then show ?case by simp
next
  case (Cons t ts)
  obtain r w1 where t: "t w = (r, w1)" by (cases "t w")
  obtain rs w2 where r: "run_all ts w1 = (rs, w2)" by (cases "run_all ts w1")
  from Cons.prems have "P (fst (t w))" by simp
  then have "P r" by (simp add: t)
  moreover from Cons.IH [of w1] Cons.prems r have "\<forall>x\<in>set rs. P x" by simp
  ultimately show ?case by (simp add: t r)
qed

lemma collect_answers_entries:
  "collect_answers zs acc = Inr answers \<Longrightarrow>
   \<forall>(n, e)\<in>set answers. (n, e) \<in> set acc \<or> (\<exists>(r, m)\<in>set zs. e = dict_merge r (as_entry m))"
proof (induction zs arbitrary: acc)
  case Nil
  then show ?case by auto
next
  case (Cons z zs)
  obtain r m where z: "z = (r, m)" by (cases z)
  from Cons.prems obtain name where
    rest: "collect_answers zs (dict_set name (dict_merge r (as_entry m)) acc) = Inr answers"
    by (auto simp: z split: sum.splits)
  from Cons.IH [OF rest] set_dict_set [of name "dict_merge r (as_entry m)" acc]
  show ?case by (fastforce simp: z)
qed

lemma call_result_entry_xor:
  assumes "is_call_result r" and "\<not> dict_has m ''content''" and "\<not> dict_has m ''error''"
  shows "dict_has (dict_merge r (as_entry m)) ''content'' \<noteq> dict_has (dict_merge r (as_entry m)) ''error''"
  using assms
  by (auto simp: is_call_result_def dict_has_merge dict_has_as_entry)
     (simp_all add: dict_has_def success_result_def success_none_def failure_result_def)

lemma initial_entries:
  assumes "get_initial_answers be delay h question w = (Inr answers, w1)"
      and "(n, e) \<in> set answers"
  shows "\<exists>r m. is_call_result r \<and> m \<in> set (models h) \<and> e = dict_merge r (as_entry m)"
proof -
  from assms(1) obtain ts where
    ts: "initial_tasks be [user_message question] (models h) = Inr ts"
    and col: "collect_answers (zip (fst (run_all ts w)) (models h)) [] = Inr answers"
    by (auto simp: get_initial_answers_def gather_run_all split: sum.splits prod.splits)
  from collect_answers_entries [OF col] assms(2)
  obtain r m where rm: "(r, m) \<in> set (zip (fst (run_all ts w)) (models h))"
    and e: "e = dict_merge r (as_entry m)" by fastforce
  from rm have "r \<in> set (fst (run_all ts w))" and m: "m \<in> set (models h)"
    by (auto dest: set_zip_leftD set_zip_rightD)
  with run_all_results [OF initial_tasks_results [OF ts], of w] have "is_call_result r" by blast
  with m e show ?thesis by blast
qed

lemma collect_revised_step:
  assumes "collect_revised original_answers ((n, r) # zs) acc = Inr revised"
      and "is_call_result r"
  shows "\<exists>original e'. dict_index original_answers n = Inr original
          \<and> ((\<exists>c. is_content c \<and> e' = revised_on_success original c)
                \<or> (\<exists>msg. e' = revised_on_failure original (Str msg)))
          \<and> collect_revised original_answers zs (dict_set n e' acc) = Inr revised"
proof -
  from assms(1) obtain original where
    orig: "dict_index original_answers n = Inr original"
    by (cases "dict_index original_answers n"; cases "dict_index r ''success''") auto
  from assms(2) have "(\<exists>c. is_content c \<and> r = [(''success'', Bool True), (''content'', c)])
      \<or> (\<exists>msg. r = failure_result msg)"
    unfolding is_call_result_def success_result_def success_none_def
    by (metis is_content.simps(1) is_content.simps(2))
  then consider
      (ok) c where "is_content c" "r = [(''success'', Bool True), (''content'', c)]"
    | (err) msg where "r = failure_result msg"
    by blast
  then show ?thesis
  proof cases
    case ok
    have s: "dict_index r ''success'' = Inr (Bool True)" "dict_index r ''content'' = Inr c"
      by (simp_all add: ok dict_index_def)
    from assms(1) have "collect_revised original_answers zs
              (dict_set n (revised_on_success original c) acc) = Inr revised"
      by (simp add: s orig revised_on_success_def get_or_def dict_get_def)
    with orig ok(1) show ?thesis by blast
  next
    case err
    have s: "dict_index r ''success'' = Inr (Bool False)" "dict_index r ''error'' = Inr (Str msg)"
      by (simp_all add: err failure_result_def dict_index_def)
    from assms(1) have "collect_revised original_answers zs
              (dict_set n (revised_on_failure original (Str msg)) acc) = Inr revised"
      by (simp add: s orig revised_on_failure_def)
    with orig show ?thesis by blast
  qed
qed

lemma collect_revised_form:
  "collect_revised original_answers zs acc = Inr revised \<Longrightarrow>
   \<forall>(n, r)\<in>set zs. is_call_result r \<Longrightarrow>
   \<forall>(n, e)\<in>set revised. (n, e) \<in> set acc
      \<or> (n \<in> fst ` set zs
          \<and> (\<exists>original. dict_index original_answers n = Inr original
            \<and> ((\<exists>c. is_content c \<and> e = revised_on_success original c)
                \<or> (\<exists>msg. e = revised_on_failure original (Str msg)))))"
proof (induction zs arbitrary: acc)
  case Nil
  then show ?case by auto
next
  case (Cons z zs)
  obtain n r where z: "z = (n, r)" by (cases z)
  from Cons.prems(2) have r: "is_call_result r" and rest: "\<forall>(n, r)\<in>set zs. is_call_result r"
    by (auto simp: z)
  from collect_revised_step [OF Cons.prems(1) [unfolded z] r]
  obtain original e' where orig: "dict_index original_answers n = Inr original"
    and e': "(\<exists>c. is_content c \<and> e' = revised_on_success original c)
                \<or> (\<exists>msg. e' = revised_on_failure original (Str msg))"
    and step: "collect_revised original_answers zs (dict_set n e' acc) = Inr revised"
    by blast
  note IH = Cons.IH [OF step rest]
  have main: "(k, e) \<in> set acc
      \<or> (k \<in> fst ` set (z # zs)
          \<and> (\<exists>original. dict_index original_answers k = Inr original
            \<and> ((\<exists>c. is_content c \<and> e = revised_on_success original c)
                \<or> (\<exists>msg. e = revised_on_failure original (Str msg)))))"
    if ke: "(k, e) \<in> set revised" for k e
  proof -
    from IH ke have "(k, e) \<in> set (dict_set n e' acc)
      \<or> (k \<in> fst ` set zs
          \<and> (\<exists>original. dict_index original_answers k = Inr original
            \<and> ((\<exists>c. is_content c \<and> e = revised_on_success original c)
                \<or> (\<exists>msg. e = revised_on_failure original (Str msg)))))"
      by blast
    then show ?thesis
    proof
      assume "(k, e) \<in> set (dict_set n e' acc)"
      with set_dict_set [of n e' acc] have "(k, e) \<in> set acc \<or> (k = n \<and> e = e')" by auto
      with orig e' show ?thesis by (auto simp: z)
    next
      assume "k \<in> fst ` set zs
          \<and> (\<exists>original. dict_index original_answers k = Inr original
            \<and> ((\<exists>c. is_content c \<and> e = revised_on_success original c)
                \<or> (\<exists>msg. e = revised_on_failure original (Str msg))))"
      then show ?thesis by simp
    qed
  qed
  then show ?case by blast
qed

lemma content_of_Inr:
  "content_of original_answers n = Inr c \<Longrightarrow>
   \<exists>original. dict_index original_answers n = Inr original \<and> dict_index original ''content'' = Inr c"
  by (auto simp: content_of_def split: sum.splits)

lemma dict_index_has: "dict_index d k = Inr v \<Longrightarrow> dict_has d k"
  by (auto simp: dict_index_def dict_has_def split: option.splits)

text \<open>One step of the first loop: the model is passed over, or one call is appended.\<close>

lemma revision_tasks_step:
  assumes "revision_tasks be all_models question original_answers (m # ms) = Inr tasks"
  shows "\<exists>rest. revision_tasks be all_models question original_answers ms = Inr rest
          \<and> (tasks = rest
              \<or> (\<exists>model_name own api model_id msgs.
                    tasks = (model_name, make_api_call be api model_id msgs default_temp) # rest
                    \<and> content_of original_answers model_name = Inr own))"
proof -
  from assms obtain model_name where n: "dict_index m ''name'' = Inr model_name"
    by (cases "dict_index m ''name''") auto
  from assms n obtain other where o: "next_other all_models model_name = Inr other"
    by (cases "next_other all_models model_name") auto
  show ?thesis
  proof (cases other)
    case None
    with assms n o show ?thesis by simp
  next
    case (Some other_model)
    show ?thesis
    proof (cases "dict_has original_answers model_name")
      case False
      with assms n o Some show ?thesis by simp
    next
      case True
      from assms n o Some True obtain other_name where
        on: "dict_index other_model ''name'' = Inr other_name"
        by (cases "dict_index other_model ''name''") auto
      show ?thesis
      proof (cases "dict_has original_answers other_name")
        case False
        with assms n o Some True on show ?thesis by simp
      next
        case T2: True
        from assms n o Some True on T2 obtain own where
          own: "content_of original_answers model_name = Inr own"
          by (cases "content_of original_answers model_name") auto
        from assms n o Some True on T2 own obtain oth where
          oth: "content_of original_answers other_name = Inr oth"
          by (cases "content_of original_answers other_name") auto
        from assms n o Some True on T2 own oth obtain api where
          api: "dict_index m ''api'' = Inr api"
          by (cases "dict_index m ''api''") auto
        from assms n o Some True on T2 own oth api obtain model_id where
          mid: "dict_index m ''model_id'' = Inr model_id"
          by (cases "dict_index m ''model_id''") auto
        from assms n o Some True on T2 own oth api mid obtain rest where
          rest: "revision_tasks be all_models question original_answers ms = Inr rest"
          by (cases "revision_tasks be all_models question original_answers ms") auto
        from assms n o Some True on T2 own oth api mid rest
        have "tasks = (model_name, make_api_call be api model_id
                 [user_message (feedback_prompt question (py_str own) (py_str oth))]
                 default_temp) # rest"
          by simp
        with rest own show ?thesis by blast
      qed
    qed
  qed
qed

lemma revision_tasks_ok:
  "revision_tasks be all_models question original_answers ms = Inr tasks \<Longrightarrow>
   \<forall>(n, t)\<in>set tasks.
      (\<exists>original. dict_index original_answers n = Inr original \<and> dict_has original ''content'')
      \<and> (\<forall>w. is_call_result (fst (t w)))"
proof (induction ms arbitrary: tasks)
  case Nil
  then show ?case by simp
next
  case (Cons m ms)
  from revision_tasks_step [OF Cons.prems] obtain rest where
    rest: "revision_tasks be all_models question original_answers ms = Inr rest"
    and alt: "tasks = rest
              \<or> (\<exists>model_name own api model_id msgs.
                    tasks = (model_name, make_api_call be api model_id msgs default_temp) # rest
                    \<and> content_of original_answers model_name = Inr own)"
    by blast
  note IH = Cons.IH [OF rest]
  from alt show ?case
  proof
    assume "tasks = rest"
    with IH show ?thesis by simp
  next
    assume "\<exists>model_name own api model_id msgs.
                    tasks = (model_name, make_api_call be api model_id msgs default_temp) # rest
                    \<and> content_of original_answers model_name = Inr own"
    then obtain model_name own api model_id msgs where
      t: "tasks = (model_name, make_api_call be api model_id msgs default_temp) # rest"
      and c: "content_of original_answers model_name = Inr own" by blast
    from content_of_Inr [OF c] obtain original where
      "dict_index original_answers model_name = Inr original" "dict_has original ''content''"
      by (auto dest: dict_index_has)
    with IH show ?thesis
      by (auto simp: t make_api_call_result)
  qed
qed

lemma revised_entries:
  assumes "get_revised_answers be delay h question original_answers w = (Inr revised, w')"
      and "(n, e) \<in> set revised"
  shows "\<exists>original. dict_index original_answers n = Inr original \<and> dict_has original ''content''
           \<and> ((\<exists>c. is_content c \<and> e = revised_on_success original c)
                \<or> (\<exists>msg. e = revised_on_failure original (Str msg)))"
proof -
  from assms(1) obtain tasks where
    tasks: "revision_tasks be (models h) question original_answers (models h) = Inr tasks"
    by (cases "revision_tasks be (models h) question original_answers (models h)")
       (auto simp: get_revised_answers_def)
  let ?zs = "zip (map fst tasks) (fst (run_all (map snd tasks) w))"
  from assms(1) tasks have col: "collect_revised original_answers ?zs [] = Inr revised"
    by (simp add: get_revised_answers_def gather_run_all split: prod.splits)
  from revision_tasks_ok [OF tasks] have
    names: "\<forall>n\<in>set (map fst tasks). \<exists>original. dict_index original_answers n = Inr original \<and> dict_has original ''content''"
    and calls: "\<forall>t\<in>set (map snd tasks). \<forall>w. is_call_result (fst (t w))"
    by auto
  from run_all_results [OF calls, of w]
  have res: "\<forall>(n, r)\<in>set ?zs. is_call_result r"
    by (auto dest: set_zip_rightD)
  from collect_revised_form [OF col res] assms(2)
  have "n \<in> fst ` set ?zs
          \<and> (\<exists>original. dict_index original_answers n = Inr original
            \<and> ((\<exists>c. is_content c \<and> e = revised_on_success original c)
                \<or> (\<exists>msg. e = revised_on_failure original (Str msg))))"
    by auto
  then obtain original where nz: "n \<in> fst ` set ?zs"
    and o: "dict_index original_answers n = Inr original"
    and f: "(\<exists>c. is_content c \<and> e = revised_on_success original c)
                \<or> (\<exists>msg. e = revised_on_failure original (Str msg))"
    by blast
  from nz have "n \<in> set (map fst tasks)" by (auto dest: set_zip_leftD)
  with names o have "dict_has original ''content''" by auto
  with o f show ?thesis by blast
qed

lemma dict_index_mem: "dict_index d k = Inr v \<Longrightarrow> (k, v) \<in> set d"
  by (auto simp: dict_index_def split: option.splits dest: map_of_SomeD)

lemma revised_on_success_has:
  "dict_has (revised_on_success original c) k
     = (k = ''original_content'' \<or> k = ''content'' \<or> dict_has original k)"
  by (auto simp: revised_on_success_def dict_has_set)

lemma revised_on_failure_has:
  "dict_has (revised_on_failure original msg) k = (k = ''error'' \<or> dict_has original k)"
  by (auto simp: revised_on_failure_def dict_has_set)

lemma revision_after_disagreement:
  "get_initial_answers disagreeing_backend in_order default_handler ''2+2?'' []
     = (Inr two_answers, initial_requests ''2+2?'')
   \<and> fst (are_answers_similar disagreeing_backend default_handler ''2+2?'' two_answers
            (initial_requests ''2+2?'')) = Inr False
   \<and> fst (get_revised_answers disagreeing_backend in_order default_handler ''2+2?'' two_answers
            judged_requests) = Inr failed_revision_answers"
  by code_simp

text \<open>
  Claim C4, as stated, fails for the revision gather: when a revision call fails, the
  entry keeps the content of the initial round and the error is attached, so both are set.
\<close>

theorem failed_revision_has_content_and_error:
  "get_initial_answers disagreeing_backend in_order default_handler ''2+2?'' []
     = (Inr two_answers, initial_requests ''2+2?'')
   \<and> fst (get_revised_answers disagreeing_backend in_order default_handler ''2+2?'' two_answers
            judged_requests) = Inr failed_revision_answers
   \<and> dict_get failed_revision_answers ''Gemini-1.5-Flash''
       = Some (revised_on_failure (gemini_entry ''four'') (Str ''Gemini Error: timeout''))
   \<and> dict_has (revised_on_failure (gemini_entry ''four'') (Str ''Gemini Error: timeout'')) ''content''
   \<and> dict_has (revised_on_failure (gemini_entry ''four'') (Str ''Gemini Error: timeout'')) ''error''"
  by code_simp

text \<open>
  Claim C4, amended. Every entry of an initial-gather result set has the key
  \<^verbatim>\<open>content\<close> or the key \<^verbatim>\<open>error\<close> and not both (the provider configurations carry
  neither key); the content is that of the response, a text or \<^verbatim>\<open>None\<close>. Every entry of
  a revision-gather result set built from that initial result set has content: it is the
  initial entry of the same provider with the content replaced and no error (successful
  revision), or with the error attached next to the prior content (failed revision).
\<close>

theorem entries_have_content_or_error:
  assumes "get_initial_answers be delay h question w = (Inr answers, w1)"
      and "\<forall>m\<in>set (models h). \<not> dict_has m ''content'' \<and> \<not> dict_has m ''error''"
  shows "(\<forall>(name, e)\<in>set answers. dict_has e ''content'' \<noteq> dict_has e ''error'')
       \<and> (\<forall>be' delay' w2 revised w3.
             get_revised_answers be' delay' h question answers w2 = (Inr revised, w3)
             \<longrightarrow> (\<forall>(name, e)\<in>set revised.
                    dict_has e ''content''
                    \<and> (\<exists>original. (name, original) \<in> set answers
                          \<and> ((\<exists>c. is_content c \<and> e = revised_on_success original c
                                  \<and> \<not> dict_has e ''error'')
                              \<or> (\<exists>msg. e = revised_on_failure original (Str msg)
                                    \<and> dict_has e ''error'')))))"
proof -
  have xor: "dict_has e ''content'' \<noteq> dict_has e ''error''" if "(name, e) \<in> set answers" for name e
  proof -
    from initial_entries [OF assms(1) that] obtain r m where
      "is_call_result r" "m \<in> set (models h)" "e = dict_merge r (as_entry m)" by blast
    with assms(2) call_result_entry_xor [of r m] show ?thesis by simp
  qed
  have rev: "dict_has e ''content''
                    \<and> (\<exists>original. (name, original) \<in> set answers
                          \<and> ((\<exists>c. is_content c \<and> e = revised_on_success original c
                                  \<and> \<not> dict_has e ''error'')
                              \<or> (\<exists>msg. e = revised_on_failure original (Str msg)
                                    \<and> dict_has e ''error'')))"
    if g: "get_revised_answers be' delay' h question answers w2 = (Inr revised, w3)"
      and m: "(name, e) \<in> set revised" for be' delay' w2 revised w3 name e
  proof -
    from revised_entries [OF g m] obtain original where
      o: "dict_index answers name = Inr original" and c: "dict_has original ''content''"
      and f: "(\<exists>c. is_content c \<and> e = revised_on_success original c)
                \<or> (\<exists>msg. e = revised_on_failure original (Str msg))"
      by blast
    from o have mem: "(name, original) \<in> set answers" by (rule dict_index_mem)
    from xor [OF mem] c have ne: "\<not> dict_has original ''error''" by simp
    from f show ?thesis
    proof
      assume "\<exists>c. is_content c \<and> e = revised_on_success original c"
      then obtain c' where c': "is_content c'" and e: "e = revised_on_success original c'"
        by blast
      have "dict_has e ''content''" "\<not> dict_has e ''error''"
        using ne by (simp_all add: e revised_on_success_has)
      with mem e c' show ?thesis by blast
    next
      assume "\<exists>msg. e = revised_on_failure original (Str msg)"
      then obtain msg where e: "e = revised_on_failure original (Str msg)" by blast
      have "dict_has e ''content''" "dict_has e ''error''"
        using c by (simp_all add: e revised_on_failure_has)
      with mem e show ?thesis by blast
    qed
  qed
  from xor rev show ?thesis by blast
qed

theorem entries_have_content_or_error_witness:
  "dict_has (gpt_entry ''4'') ''content'' \<noteq> dict_has (gpt_entry ''4'') ''error''
   \<and> dict_has (revised_on_failure (gemini_entry ''four'') (Str ''Gemini Error: timeout'')) ''content''"
proof -
  have init: "get_initial_answers disagreeing_backend in_order default_handler ''2+2?'' []
     = (Inr two_answers, initial_requests ''2+2?'')"
    using revision_after_disagreement by blast
  have keys: "\<forall>m\<in>set (models default_handler). \<not> dict_has m ''content'' \<and> \<not> dict_has m ''error''"
    by (simp add: default_handler_def initial_models_def dict_has_def)
  obtain w3 where rev: "get_revised_answers disagreeing_backend in_order default_handler ''2+2?''
      two_answers judged_requests = (Inr failed_revision_answers, w3)"
    using revision_after_disagreement
    by (cases "get_revised_answers disagreeing_backend in_order default_handler ''2+2?''
      two_answers judged_requests") auto
  note inst = entries_have_content_or_error [OF init keys]
  from inst have "\<forall>(name, e)\<in>set two_answers. dict_has e ''content'' \<noteq> dict_has e ''error''"
    by blast
  then have a: "dict_has (gpt_entry ''4'') ''content'' \<noteq> dict_has (gpt_entry ''4'') ''error''"
    by (simp add: two_answers_def)
  from inst have "\<forall>be' delay' w2 revised w3.
         get_revised_answers be' delay' default_handler ''2+2?'' two_answers w2 = (Inr revised, w3)
         \<longrightarrow> (\<forall>(name, e)\<in>set revised. dict_has e ''content'')"
    by fast
  with rev have "\<forall>(name, e)\<in>set failed_revision_answers. dict_has e ''content''"
    by blast
  then have b: "dict_has (revised_on_failure (gemini_entry ''four'') (Str ''Gemini Error: timeout'')) ''content''"
    by (simp add: failed_revision_answers_def)
  from a b show ?thesis by blast
qed

section \<open>The labels of the final entries\<close>


















end
